theory Spec2Isabelle
  imports Main "HOL-Library.Sublist"
begin

section \<open>Python strings\<close>

text \<open>
  A Python \<open>str\<close> is modelled as a \<open>string\<close> whose characters are the code points
  0..255 (the Latin-1 range, which contains ASCII). The string methods the detector calls
  are written out below with what CPython does on that range: \<open>str.lower\<close>,
  \<open>str.strip\<close> (white space is what \<open>str.isspace\<close> accepts), \<open>str.lstrip(chars)\<close>,
  the operator \<open>in\<close> on strings and \<open>str.replace\<close>.
\<close>

definition ord :: "char \<Rightarrow> nat" where
  "ord c = of_char c"

definition isspace :: "char \<Rightarrow> bool" where
  "isspace c = ((9 \<le> ord c \<and> ord c \<le> 13) \<or> (28 \<le> ord c \<and> ord c \<le> 32)
     \<or> ord c = 133 \<or> ord c = 160)"

definition isdigit :: "char \<Rightarrow> bool" where
  "isdigit c = (48 \<le> ord c \<and> ord c \<le> 57)"

definition isupper :: "char \<Rightarrow> bool" where
  "isupper c = ((65 \<le> ord c \<and> ord c \<le> 90) \<or> (192 \<le> ord c \<and> ord c \<le> 214)
     \<or> (216 \<le> ord c \<and> ord c \<le> 222))"

definition lower_char :: "char \<Rightarrow> char" where
  "lower_char c = (if isupper c then char_of (ord c + 32) else c)"

definition lower :: "string \<Rightarrow> string" where
  "lower s = map lower_char s"

definition lstrip :: "string \<Rightarrow> string" where
  "lstrip s = dropWhile isspace s"

definition rstrip :: "string \<Rightarrow> string" where
  "rstrip s = rev (dropWhile isspace (rev s))"

definition strip :: "string \<Rightarrow> string" where
  "strip s = rstrip (lstrip s)"

definition lstrip_chars :: "string \<Rightarrow> string \<Rightarrow> string" where
  "lstrip_chars chars s = dropWhile (\<lambda>c. c \<in> set chars) s"

text \<open>\<open>sub in s\<close>: \<open>sub\<close> occurs in \<open>s\<close> as a contiguous run; the empty string occurs
  everywhere, also in the empty string.\<close>

fun str_in :: "string \<Rightarrow> string \<Rightarrow> bool" where
  "str_in sub [] = (sub = [])"
| "str_in sub (c # cs) = (prefix sub (c # cs) \<or> str_in sub cs)"

text \<open>\<open>s.replace(old, new)\<close>: the occurrences of \<open>old\<close> are found from the left and do not
  overlap; an empty \<open>old\<close> puts \<open>new\<close> before every character and at the end.\<close>

function replace :: "string \<Rightarrow> string \<Rightarrow> string \<Rightarrow> string" where
  "replace old new [] = (if old = [] then new else [])"
| "replace old new (c # cs) =
     (if old = [] then new @ c # replace old new cs
      else if prefix old (c # cs) then new @ replace old new (drop (length old) (c # cs))
      else c # replace old new cs)"
  by pat_completeness auto
termination
  by (relation "measure (\<lambda>(old, new, s). length s)") (auto simp: Suc_le_eq)

section \<open>The regular expressions of the pattern table\<close>

text \<open>
  The module \<open>re\<close> is a library. The six patterns of \<open>PII_PATTERNS\<close> use character
  classes (\<open>NCls\<close> is a negated class \<open>[^...]\<close>), literals, sequencing, the greedy option \<open>?\<close> and greedy repetition of a
  class (\<open>+\<close>, \<open>{m}\<close>, \<open>{m,n}\<close>, \<open>{m,}\<close>); groups only bracket. \<open>ends r s\<close> lists, in the
  order in which the backtracking matcher of \<open>re\<close> tries them, what is left of \<open>s\<close> after
  a match of \<open>r\<close> at its start; the match \<open>re\<close> reports is the first of the list.
  \<open>\d\<close> and \<open>\s\<close> are the decimal digits and the white space of the code points modelled.
\<close>

datatype citem = CRange char char | CChar char | CDigit | CSpace

type_synonym cclass = "citem list"

fun citem_match :: "citem \<Rightarrow> char \<Rightarrow> bool" where
  "citem_match (CRange lo hi) c = (ord lo \<le> ord c \<and> ord c \<le> ord hi)"
| "citem_match (CChar x) c = (c = x)"
| "citem_match CDigit c = isdigit c"
| "citem_match CSpace c = isspace c"

definition in_class :: "cclass \<Rightarrow> char \<Rightarrow> bool" where
  "in_class k c = list_ex (\<lambda>i. citem_match i c) k"

datatype regex =
    Lit char
  | Cls cclass
  | NCls cclass
  | Seq regex regex
  | Opt regex
  | Rep cclass nat "nat option"

fun dec :: "nat option \<Rightarrow> nat option" where
  "dec None = None"
| "dec (Some n) = Some (n - 1)"

fun rep_ends :: "cclass \<Rightarrow> nat \<Rightarrow> nat option \<Rightarrow> string \<Rightarrow> string list" where
  "rep_ends k m n [] = (if m = 0 then [[]] else [])"
| "rep_ends k m n (c # cs) =
     (if in_class k c \<and> n \<noteq> Some 0 then rep_ends k (m - 1) (dec n) cs else [])
     @ (if m = 0 then [c # cs] else [])"

fun ends :: "regex \<Rightarrow> string \<Rightarrow> string list" where
  "ends (Lit x) s = (case s of [] \<Rightarrow> [] | c # cs \<Rightarrow> if c = x then [cs] else [])"
| "ends (Cls k) s = (case s of [] \<Rightarrow> [] | c # cs \<Rightarrow> if in_class k c then [cs] else [])"
| "ends (NCls k) s = (case s of [] \<Rightarrow> [] | c # cs \<Rightarrow> if in_class k c then [] else [cs])"
| "ends (Seq a b) s = concat (map (ends b) (ends a s))"
| "ends (Opt a) s = ends a s @ [s]"
| "ends (Rep k m n) s = rep_ends k m n s"

definition match_at :: "regex \<Rightarrow> string \<Rightarrow> string option" where
  "match_at r s = (case ends r s of [] \<Rightarrow> None | e # _ \<Rightarrow> Some e)"

text \<open>\<open>pattern.search(text)\<close>, read as a truth value: some position of the text starts a
  match.\<close>

fun search :: "regex \<Rightarrow> string \<Rightarrow> bool" where
  "search r [] = (match_at r [] \<noteq> None)"
| "search r (c # cs) = (match_at r (c # cs) \<noteq> None \<or> search r cs)"

text \<open>\<open>pattern.sub(repl, text)\<close> for a replacement without backslash (no template
  escapes) and a pattern that matches no empty string, which is the case of every
  pattern of this program (lemmas \<open>no_empty_match\<close> and \<open>match_at_shorter\<close> below): the
  leftmost match is
  replaced and the scan goes on behind it.\<close>

function sub :: "regex \<Rightarrow> string \<Rightarrow> string \<Rightarrow> string" where
  "sub r repl [] = []"
| "sub r repl (c # cs) =
     (case match_at r (c # cs) of
        None \<Rightarrow> c # sub r repl cs
      | Some e \<Rightarrow> if length e \<le> length cs then repl @ sub r repl e else c # sub r repl cs)"
  by pat_completeness auto
termination
  by (relation "measure (\<lambda>(r, repl, s). length s)") auto

section \<open>The pattern table\<close>

text \<open>\<open>PII_PATTERNS\<close>, a dictionary in the order of its source text.\<close>

definition digits :: "nat \<Rightarrow> nat \<Rightarrow> regex" where
  "digits m n = Rep [CDigit] m (Some n)"

definition alnum :: cclass where
  "alnum = [CRange CHR ''a'' CHR ''z'', CRange CHR ''A'' CHR ''Z'', CRange CHR ''0'' CHR ''9'']"

definition sep3 :: regex where
  "sep3 = Opt (Cls [CChar CHR ''-'', CChar CHR ''.'', CSpace])"

definition sep2 :: regex where
  "sep2 = Opt (Cls [CChar CHR ''-'', CSpace])"

definition email_re :: regex where
  "email_re =
     Seq (Rep (alnum @ [CChar CHR ''.'', CChar CHR ''_'', CChar CHR ''%'', CChar CHR ''+'',
                        CChar CHR ''-'']) 1 None)
    (Seq (Lit CHR ''@'')
    (Seq (Rep (alnum @ [CChar CHR ''.'', CChar CHR ''-'']) 1 None)
    (Seq (Lit CHR ''.'')
         (Rep [CRange CHR ''a'' CHR ''z'', CRange CHR ''A'' CHR ''Z''] 2 None))))"

definition phone_re :: regex where
  "phone_re =
     Seq (Opt (Seq (Opt (Lit CHR ''+'')) (Seq (Lit CHR ''1'') sep3)))
    (Seq (Opt (Seq (Opt (Lit CHR ''('')) (Seq (digits 3 3) (Seq (Opt (Lit CHR '')'')) sep3))))
    (Seq (digits 3 3) (Seq sep3 (digits 4 4))))"

definition ssn_re :: regex where
  "ssn_re =
     Seq (digits 3 3) (Seq (Lit CHR ''-'') (Seq (digits 2 2) (Seq (Lit CHR ''-'') (digits 4 4))))"

definition credit_card_re :: regex where
  "credit_card_re =
     Seq (digits 4 4) (Seq sep2 (Seq (digits 4 4) (Seq sep2 (Seq (digits 4 4)
    (Seq sep2 (digits 4 4))))))"

definition ip_address_re :: regex where
  "ip_address_re =
     Seq (digits 1 3) (Seq (Lit CHR ''.'') (Seq (digits 1 3) (Seq (Lit CHR ''.'')
    (Seq (digits 1 3) (Seq (Lit CHR ''.'') (digits 1 3))))))"

definition date_re :: regex where
  "date_re =
     Seq (digits 1 2) (Seq (Cls [CChar CHR ''-'', CChar CHR ''/''])
    (Seq (digits 1 2) (Seq (Cls [CChar CHR ''-'', CChar CHR ''/'']) (digits 2 4))))"

definition PII_PATTERNS :: "(string \<times> regex) list" where
  "PII_PATTERNS =
     [(''email'', email_re), (''phone'', phone_re), (''ssn'', ssn_re),
      (''credit_card'', credit_card_re), (''ip_address'', ip_address_re), (''date'', date_re)]"

text \<open>\<open>re.sub(r'[^\d]', '', s)\<close>, which the detector applies to phone numbers and to the
  text they are looked up in.\<close>

definition non_digit_re :: regex where
  "non_digit_re = NCls [CDigit]"

definition digits_only :: "string \<Rightarrow> string" where
  "digits_only s = sub non_digit_re [] s"

section \<open>The detector\<close>

text \<open>
  \<open>PIIDetector\<close> holds nine Python sets. A set is modelled as a list without repetition
  whose order stands for the order in which a \<open>for\<close> loop visits the set; \<open>set.add\<close> is
  \<open>List.insert\<close>, which leaves a list that already holds the value as it is. The results
  below are stated for every such list, so for every order of iteration.

  A compiled custom pattern is what \<open>re.compile(pattern, re.IGNORECASE)\<close> returns: its
  source and its \<open>search\<close> method (read as a truth value). The function \<open>re.compile\<close>
  itself is an argument of \<open>add_custom_pattern\<close>. It raises \<open>re.error\<close> on a pattern it
  cannot parse, \<open>OverflowError\<close> on a repetition count that is too large and
  \<open>RecursionError\<close> on a pattern nested too deeply; \<open>Inl\<close> holds the exception raised.
  \<open>add_custom_pattern\<close> catches \<open>re.error\<close> only: it returns the state after the call
  and the exception that leaves it, if any.
\<close>

datatype re_flag = NOFLAG | IGNORECASE

datatype py_error = ReError | OverflowError | RecursionError

record compiled =
  pattern_source :: string
  pattern_flag :: re_flag
  pattern_search :: "string \<Rightarrow> bool"

type_synonym re_compile = "string \<Rightarrow> re_flag \<Rightarrow> py_error + compiled"

record detector =
  creator_names :: "string list"
  creator_handles :: "string list"
  creator_locations :: "string list"
  creator_employers :: "string list"
  creator_family :: "string list"
  creator_phone :: "string list"
  creator_email :: "string list"
  creator_addresses :: "string list"
  custom_patterns :: "compiled list"

definition init_detector :: detector where
  "init_detector =
     \<lparr>creator_names = [], creator_handles = [], creator_locations = [],
      creator_employers = [], creator_family = [], creator_phone = [],
      creator_email = [], creator_addresses = [], custom_patterns = []\<rparr>"

definition add_creator_name :: "detector \<Rightarrow> string \<Rightarrow> detector" where
  "add_creator_name d name =
     (let normalized = strip (lower name)
      in d\<lparr>creator_names := List.insert normalized (creator_names d)\<rparr>)"

definition add_creator_handle :: "detector \<Rightarrow> string \<Rightarrow> detector" where
  "add_creator_handle d handle =
     (let normalized = lstrip_chars ''@'' (strip (lower handle))
      in d\<lparr>creator_handles := List.insert normalized (creator_handles d)\<rparr>)"

definition add_creator_location :: "detector \<Rightarrow> string \<Rightarrow> detector" where
  "add_creator_location d location =
     (let normalized = strip (lower location)
      in d\<lparr>creator_locations := List.insert normalized (creator_locations d)\<rparr>)"

definition add_creator_employer :: "detector \<Rightarrow> string \<Rightarrow> detector" where
  "add_creator_employer d employer =
     (let normalized = strip (lower employer)
      in d\<lparr>creator_employers := List.insert normalized (creator_employers d)\<rparr>)"

definition add_creator_family :: "detector \<Rightarrow> string \<Rightarrow> detector" where
  "add_creator_family d name =
     (let normalized = strip (lower name)
      in d\<lparr>creator_family := List.insert normalized (creator_family d)\<rparr>)"

definition add_creator_phone :: "detector \<Rightarrow> string \<Rightarrow> detector" where
  "add_creator_phone d phone =
     (let normalized = digits_only phone
      in d\<lparr>creator_phone := List.insert normalized (creator_phone d)\<rparr>)"

definition add_creator_email :: "detector \<Rightarrow> string \<Rightarrow> detector" where
  "add_creator_email d email =
     (let normalized = strip (lower email)
      in d\<lparr>creator_email := List.insert normalized (creator_email d)\<rparr>)"

definition add_creator_address :: "detector \<Rightarrow> string \<Rightarrow> detector" where
  "add_creator_address d address =
     (let normalized = strip (lower address)
      in d\<lparr>creator_addresses := List.insert normalized (creator_addresses d)\<rparr>)"

definition add_custom_pattern ::
  "re_compile \<Rightarrow> detector \<Rightarrow> string \<Rightarrow> detector \<times> py_error option" where
  "add_custom_pattern re_comp d pattern =
     (case re_comp pattern IGNORECASE of
        Inr p \<Rightarrow> (d\<lparr>custom_patterns := List.insert p (custom_patterns d)\<rparr>, None)
      | Inl e \<Rightarrow> if e = ReError then (d, None) else (d, Some e))"

text \<open>The loops \<open>for x in xs: if ...: return True\<close>, each followed by what comes after
  it.\<close>

fun check_patterns_loop :: "(string \<times> regex) list \<Rightarrow> string \<Rightarrow> bool" where
  "check_patterns_loop [] text = False"
| "check_patterns_loop ((name, pattern) # rest) text =
     (if search pattern text then True else check_patterns_loop rest text)"

definition check_patterns :: "string \<Rightarrow> bool" where
  "check_patterns text = check_patterns_loop PII_PATTERNS text"

fun any_in :: "string list \<Rightarrow> string \<Rightarrow> bool" where
  "any_in [] text = False"
| "any_in (x # xs) text = (if str_in x text then True else any_in xs text)"

definition check_creator_pii :: "detector \<Rightarrow> string \<Rightarrow> bool" where
  "check_creator_pii d text =
     (let text_lower = lower text in
      if any_in (creator_names d) text_lower then True
      else if any_in (creator_handles d) text_lower then True
      else if any_in (creator_locations d) text_lower then True
      else if any_in (creator_employers d) text_lower then True
      else if any_in (creator_family d) text_lower then True
      else let text_nums = digits_only text in
        if any_in (creator_phone d) text_nums then True
        else if any_in (creator_email d) text_lower then True
        else if any_in (creator_addresses d) text_lower then True
        else False)"

fun check_custom_loop :: "compiled list \<Rightarrow> string \<Rightarrow> bool" where
  "check_custom_loop [] text = False"
| "check_custom_loop (pattern # rest) text =
     (if pattern_search pattern text then True else check_custom_loop rest text)"

definition check_custom_patterns :: "detector \<Rightarrow> string \<Rightarrow> bool" where
  "check_custom_patterns d text = check_custom_loop (custom_patterns d) text"

definition contains_pii :: "detector \<Rightarrow> string \<Rightarrow> bool" where
  "contains_pii d text =
     (if check_patterns text then True
      else if check_creator_pii d text then True
      else if check_custom_patterns d text then True
      else False)"

text \<open>\<open>check_and_sanitize\<close> hands the placeholder to \<open>pattern.sub\<close> and to \<open>str.replace\<close>.
  The model inserts it as it is, which is what both do with a placeholder that has no
  backslash, the default \<open>[REDACTED]\<close> among them; \<open>pattern.sub\<close> reads a backslash as a
  template escape, and such placeholders are outside the model of the sanitized text.\<close>

definition default_placeholder :: string where
  "default_placeholder = ''[REDACTED]''"

fun sub_all :: "(string \<times> regex) list \<Rightarrow> string \<Rightarrow> string \<Rightarrow> string" where
  "sub_all [] placeholder sanitized = sanitized"
| "sub_all ((name, pattern) # rest) placeholder sanitized =
     sub_all rest placeholder (sub pattern placeholder sanitized)"

fun replace_all :: "string list \<Rightarrow> string \<Rightarrow> string \<Rightarrow> string" where
  "replace_all [] placeholder sanitized = sanitized"
| "replace_all (name # rest) placeholder sanitized =
     replace_all rest placeholder (replace name placeholder sanitized)"

definition check_and_sanitize :: "detector \<Rightarrow> string \<Rightarrow> string \<Rightarrow> bool \<times> string" where
  "check_and_sanitize d text placeholder =
     (if \<not> contains_pii d text then (False, text)
      else
        let sanitized = text;
            sanitized = sub_all PII_PATTERNS placeholder sanitized;
            sanitized = replace_all (creator_names d) placeholder sanitized;
            sanitized = replace_all (creator_handles d) placeholder sanitized
        in (True, sanitized))"

definition clear_all :: "detector \<Rightarrow> detector" where
  "clear_all d =
     d\<lparr>creator_names := [], creator_handles := [], creator_locations := [],
       creator_employers := [], creator_family := [], creator_phone := [],
       creator_email := [], creator_addresses := [], custom_patterns := []\<rparr>"

definition get_stats :: "detector \<Rightarrow> (string \<times> nat) list" where
  "get_stats d =
     [(''creator_names_count'', length (creator_names d)),
      (''creator_handles_count'', length (creator_handles d)),
      (''creator_locations_count'', length (creator_locations d)),
      (''creator_employers_count'', length (creator_employers d)),
      (''creator_family_count'', length (creator_family d)),
      (''creator_phone_count'', length (creator_phone d)),
      (''creator_email_count'', length (creator_email d)),
      (''creator_address_count'', length (creator_addresses d)),
      (''custom_patterns_count'', length (custom_patterns d))]"

definition create_detector :: detector where
  "create_detector = init_detector"

text \<open>\<open>handle\<close>, \<open>location\<close> and \<open>employer\<close> are \<open>Optional[str]\<close>; \<open>if handle:\<close> holds for a
  string that is neither \<open>None\<close> nor empty.\<close>

fun truthy :: "string option \<Rightarrow> bool" where
  "truthy None = False"
| "truthy (Some s) = (s \<noteq> [])"

definition create_detector_with_creator ::
  "string \<Rightarrow> string option \<Rightarrow> string option \<Rightarrow> string option \<Rightarrow> detector" where
  "create_detector_with_creator name handle location employer =
     (let detector = init_detector;
          detector = add_creator_name detector name;
          detector = (case handle of
                        Some h \<Rightarrow> if truthy handle then add_creator_handle detector h
                                 else detector
                      | None \<Rightarrow> detector);
          detector = (case location of
                        Some l \<Rightarrow> if truthy location then add_creator_location detector l
                                 else detector
                      | None \<Rightarrow> detector);
          detector = (case employer of
                        Some e \<Rightarrow> if truthy employer then add_creator_employer detector e
                                 else detector
                      | None \<Rightarrow> detector)
      in detector)"

text \<open>A call of a method of the detector: the state after it and what it returns or
  raises. The queries assign nothing to \<open>self\<close>.\<close>

datatype call =
    AddCreatorName string
  | AddCreatorHandle string
  | AddCreatorLocation string
  | AddCreatorEmployer string
  | AddCreatorFamily string
  | AddCreatorPhone string
  | AddCreatorEmail string
  | AddCreatorAddress string
  | AddCustomPattern string
  | ContainsPII string
  | CheckAndSanitize string string
  | ClearAll
  | GetStats

datatype returned =
    RNone
  | RRaise py_error
  | RBool bool
  | RPair "bool \<times> string"
  | RStats "(string \<times> nat) list"

fun invoke :: "re_compile \<Rightarrow> detector \<Rightarrow> call \<Rightarrow> detector \<times> returned" where
  "invoke rc d (AddCreatorName v) = (add_creator_name d v, RNone)"
| "invoke rc d (AddCreatorHandle v) = (add_creator_handle d v, RNone)"
| "invoke rc d (AddCreatorLocation v) = (add_creator_location d v, RNone)"
| "invoke rc d (AddCreatorEmployer v) = (add_creator_employer d v, RNone)"
| "invoke rc d (AddCreatorFamily v) = (add_creator_family d v, RNone)"
| "invoke rc d (AddCreatorPhone v) = (add_creator_phone d v, RNone)"
| "invoke rc d (AddCreatorEmail v) = (add_creator_email d v, RNone)"
| "invoke rc d (AddCreatorAddress v) = (add_creator_address d v, RNone)"
| "invoke rc d (AddCustomPattern v) =
     (case add_custom_pattern rc d v of
        (d', None) \<Rightarrow> (d', RNone)
      | (d', Some e) \<Rightarrow> (d', RRaise e))"
| "invoke rc d (ContainsPII t) = (d, RBool (contains_pii d t))"
| "invoke rc d (CheckAndSanitize t placeholder) = (d, RPair (check_and_sanitize d t placeholder))"
| "invoke rc d ClearAll = (clear_all d, RNone)"
| "invoke rc d GetStats = (d, RStats (get_stats d))"

fun run :: "re_compile \<Rightarrow> detector \<Rightarrow> call list \<Rightarrow> detector" where
  "run rc d [] = d"
| "run rc d (c # cs) = run rc (fst (invoke rc d c)) cs"

section \<open>The command line wrapper\<close>

text \<open>
  \<open>SafeMoltbookCLI\<close>: the detector, the protection switch and the two counters. The
  client is the transport: a call of one of its methods is the value \<open>ClientCall\<close> with
  the request it would send, and a result built locally is a \<open>Local\<close> dictionary (in the
  order of its keys). The creator configuration is the dictionary read from the JSON
  file, with strings as values.
\<close>

datatype pyval = PBool bool | PStr string

datatype request =
    PostCreate string string string "string option"
  | CommentCreate string string "string option"

datatype outcome =
    Local "(string \<times> pyval) list"
  | ClientCall request

record cli =
  pii_detector :: detector
  pii_protection_enabled :: bool
  posts_blocked :: nat
  posts_allowed :: nat

definition dict_get :: "(string \<times> string) list \<Rightarrow> string \<Rightarrow> string \<Rightarrow> string" where
  "dict_get cfg k dflt = (case map_of cfg k of Some v \<Rightarrow> v | None \<Rightarrow> dflt)"

definition cli_create_detector :: "(string \<times> string) list option \<Rightarrow> detector" where
  "cli_create_detector config =
     (case config of
        None \<Rightarrow> create_detector_with_creator [] (Some []) (Some []) (Some [])
      | Some cfg \<Rightarrow>
          if cfg = [] then create_detector_with_creator [] (Some []) (Some []) (Some [])
          else
            create_detector_with_creator
              (dict_get cfg ''name'' [])
              (Some (dict_get cfg ''handle'' []))
              (Some (dict_get cfg ''location'' []))
              (Some (dict_get cfg ''employer'' [])))"

definition cli_init :: "(string \<times> string) list option \<Rightarrow> cli" where
  "cli_init creator_config =
     \<lparr>pii_detector = cli_create_detector creator_config,
      pii_protection_enabled = True,
      posts_blocked = 0,
      posts_allowed = 0\<rparr>"

definition disable_pii_protection :: "cli \<Rightarrow> cli" where
  "disable_pii_protection c = c\<lparr>pii_protection_enabled := False\<rparr>"

definition enable_pii_protection :: "cli \<Rightarrow> cli" where
  "enable_pii_protection c = c\<lparr>pii_protection_enabled := True\<rparr>"

definition check_content :: "cli \<Rightarrow> string \<Rightarrow> string \<Rightarrow> (bool \<times> string \<times> string option) \<times> cli" where
  "check_content c content field =
     (if \<not> pii_protection_enabled c then ((True, ''PII protection disabled'', None), c)
      else if content = [] then ((True, ''Empty content'', None), c)
      else
        let (has_pii, sanitized) = check_and_sanitize (pii_detector c) content default_placeholder
        in if has_pii then
             ((False, ''PII detected in '' @ field @ '' - post blocked'', Some sanitized),
              c\<lparr>posts_blocked := posts_blocked c + 1\<rparr>)
           else ((True, field @ '' is safe'', None), c\<lparr>posts_allowed := posts_allowed c + 1\<rparr>))"

definition safe_post_create ::
  "cli \<Rightarrow> string \<Rightarrow> string \<Rightarrow> string \<Rightarrow> string option \<Rightarrow> outcome \<times> cli" where
  "safe_post_create c submolt title content url =
     (let ((title_safe, title_msg, _), c1) = check_content c title ''title'' in
      if \<not> title_safe then
        (Local [(''success'', PBool False),
                (''error'', PStr ''PII Protection Blocked''),
                (''details'', PStr title_msg),
                (''suggestion'', PStr ''Remove personal information from title and try again'')],
         c1)
      else
        let ((content_safe, content_msg, sanitized), c2) = check_content c1 content ''content'' in
        if \<not> content_safe then
          (Local [(''success'', PBool False),
                  (''error'', PStr ''PII Protection Blocked''),
                  (''details'', PStr content_msg),
                  (''suggestion'', PStr ''Remove personal information from content and try again'')],
           c2)
        else (ClientCall (PostCreate submolt title content url), c2))"

text \<open>The handler of \<open>post comment\<close> in \<open>main\<close>.\<close>

definition post_comment :: "cli \<Rightarrow> string \<Rightarrow> string \<Rightarrow> string option \<Rightarrow> outcome \<times> cli" where
  "post_comment c post_id content parent =
     (let ((is_safe, msg, _), c1) = check_content c content ''comment'' in
      if \<not> is_safe then
        (Local [(''success'', PBool False),
                (''error'', PStr ''PII Protection Blocked''),
                (''details'', PStr msg)],
         c1)
      else (ClientCall (CommentCreate post_id content parent), c1))"

text \<open>
  An instance of \<open>re.compile\<close> for concrete runs. It agrees with the library on the
  pattern \<open>[\<close>, which \<open>re\<close> rejects with \<open>re.error\<close> (unterminated character set), on the
  pattern \<open>a{4294967296}\<close>, on which \<open>re\<close> raises \<open>OverflowError\<close> (the repetition number
  is too large), and on patterns made of letters and digits, which match their own text
  whatever its case. No general result below depends on it.\<close>

definition re_compile_sample :: re_compile where
  "re_compile_sample pattern flag =
     (if pattern = ''['' then Inl ReError
      else if pattern = ''a{4294967296}'' then Inl OverflowError
      else Inr \<lparr>pattern_source = pattern, pattern_flag = flag,
                pattern_search = (\<lambda>text. str_in (lower pattern) (lower text))\<rparr>)"

text \<open>
  Claim C2 as it is worded: before a stored secret is looked up, the text is normalized
  by the rule of the secret's category, that is lower case and trimmed, for a handle also
  without leading \<open>@\<close>, and for a phone number reduced to its digits.\<close>

definition claimed_contains_pii :: "detector \<Rightarrow> string \<Rightarrow> bool" where
  "claimed_contains_pii d t =
     ((\<exists>(category, pattern) \<in> set PII_PATTERNS. search pattern t)
      \<or> (\<exists>s \<in> set (creator_names d) \<union> set (creator_locations d) \<union> set (creator_employers d)
             \<union> set (creator_family d) \<union> set (creator_email d) \<union> set (creator_addresses d).
            sublist s (strip (lower t)))
      \<or> (\<exists>h \<in> set (creator_handles d). sublist h (lstrip_chars ''@'' (strip (lower t))))
      \<or> (\<exists>p \<in> set (creator_phone d). sublist p (digits_only t))
      \<or> (\<exists>m \<in> set (custom_patterns d). pattern_search m t))"

text \<open>A creator configuration that gives no value for a key: there is no configuration,
  or its dictionary has no such key.\<close>

definition lacks :: "(string \<times> string) list option \<Rightarrow> string \<Rightarrow> bool" where
  "lacks config k = (case config of None \<Rightarrow> True | Some cfg \<Rightarrow> map_of cfg k = None)"

text \<open>A pattern that takes at least one character of the text in every match.\<close>

fun consumes :: "regex \<Rightarrow> bool" where
  "consumes (Lit x) = True"
| "consumes (Cls k) = True"
| "consumes (NCls k) = True"
| "consumes (Seq a b) = (consumes a \<or> consumes b)"
| "consumes (Opt a) = False"
| "consumes (Rep k m n) = (0 < m)"

text \<open>
  What the data model asks of the stored values: a value is its own lower-case, trimmed
  form. For a handle, what the code establishes: lower case, no white space at the end
  and no leading \<open>@\<close>.\<close>

definition normalized :: "string \<Rightarrow> bool" where
  "normalized v = (strip (lower v) = v)"

definition handle_normalized :: "string \<Rightarrow> bool" where
  "handle_normalized h = (lower h = h \<and> rstrip h = h \<and> lstrip_chars ''@'' h = h)"

definition stored_normalized :: "detector \<Rightarrow> bool" where
  "stored_normalized d =
     (list_all normalized (creator_names d) \<and> list_all handle_normalized (creator_handles d)
      \<and> list_all normalized (creator_locations d) \<and> list_all normalized (creator_employers d)
      \<and> list_all normalized (creator_family d) \<and> list_all (list_all isdigit) (creator_phone d)
      \<and> list_all normalized (creator_email d) \<and> list_all normalized (creator_addresses d))"

section \<open>Loops as existence statements\<close>

lemma str_in_sublist: "str_in x t \<longleftrightarrow> sublist x t"
  by (induction t) (auto simp: sublist_Cons_right)

lemma any_in_iff: "any_in xs t \<longleftrightarrow> (\<exists>x\<in>set xs. sublist x t)"
  by (induction xs) (auto simp: str_in_sublist)

lemma check_patterns_loop_iff:
  "check_patterns_loop ps t \<longleftrightarrow> (\<exists>(n, r)\<in>set ps. search r t)"
  by (induction ps t rule: check_patterns_loop.induct) auto

lemma check_custom_loop_iff:
  "check_custom_loop ps t \<longleftrightarrow> (\<exists>p\<in>set ps. pattern_search p t)"
  by (induction ps) auto

lemma match_at_non_digit:
  "match_at non_digit_re (c # cs) = (if isdigit c then None else Some cs)"
  by (simp add: match_at_def non_digit_re_def in_class_def)

lemma digits_only_filter: "digits_only s = filter isdigit s"
  unfolding digits_only_def
  by (induction s) (simp_all add: match_at_non_digit)

lemma check_creator_pii_iff:
  "check_creator_pii d t \<longleftrightarrow>
     (\<exists>s \<in> set (creator_names d) \<union> set (creator_handles d) \<union> set (creator_locations d)
          \<union> set (creator_employers d) \<union> set (creator_family d) \<union> set (creator_email d)
          \<union> set (creator_addresses d). sublist s (lower t))
   \<or> (\<exists>p \<in> set (creator_phone d). sublist p (filter isdigit t))"
  unfolding check_creator_pii_def Let_def any_in_iff digits_only_filter by auto

lemma registry_clean_sample: "\<not> check_patterns ''This post is about automation''"
  by code_simp

section \<open>Matches are never empty\<close>

text \<open>Every match of a pattern of the table, and of the pattern that strips a phone
  number, takes at least one character, so \<open>sub\<close> always continues behind the match.\<close>

lemma rep_ends_length:
  "e \<in> set (rep_ends k m n s) \<Longrightarrow> length e \<le> length s \<and> (0 < m \<longrightarrow> length e < length s)"
proof (induction s arbitrary: m n)
  case Nil
  then show ?case by (simp split: if_splits)
next
  case (Cons c cs)
  then show ?case by (fastforce split: if_splits)
qed

lemma ends_length:
  "e \<in> set (ends r s) \<Longrightarrow> length e \<le> length s \<and> (consumes r \<longrightarrow> length e < length s)"
proof (induction r arbitrary: s e)
  case (Seq a b)
  from Seq.prems obtain u where u: "u \<in> set (ends a s)" and e: "e \<in> set (ends b u)"
    by auto
  from Seq.IH(1) [OF u] Seq.IH(2) [OF e] show ?case by auto
next
  case (Opt a)
  then show ?case by auto
next
  case (Rep k m n)
  then show ?case using rep_ends_length by simp
qed (auto split: list.splits if_splits)

lemma match_at_shorter:
  "consumes r \<Longrightarrow> match_at r (c # cs) = Some e \<Longrightarrow> length e \<le> length cs"
  using ends_length [of e r "c # cs"]
  by (auto simp: match_at_def split: list.splits)

lemma no_empty_match:
  "consumes non_digit_re \<and> list_all (\<lambda>(name, pattern). consumes pattern) PII_PATTERNS"
  by (simp add: non_digit_re_def PII_PATTERNS_def email_re_def phone_re_def ssn_re_def
      credit_card_re_def ip_address_re_def date_re_def digits_def)

section \<open>The verdict\<close>

lemma contains_pii_unfolded:
  "contains_pii d t \<longleftrightarrow>
     (\<exists>(category, pattern) \<in> set PII_PATTERNS. search pattern t)
   \<or> (\<exists>s \<in> set (creator_names d) \<union> set (creator_handles d) \<union> set (creator_locations d)
          \<union> set (creator_employers d) \<union> set (creator_family d) \<union> set (creator_email d)
          \<union> set (creator_addresses d). sublist s (lower t))
   \<or> (\<exists>p \<in> set (creator_phone d). sublist p (filter isdigit t))
   \<or> (\<exists>m \<in> set (custom_patterns d). pattern_search m t)"
  unfolding contains_pii_def check_patterns_def check_patterns_loop_iff
    check_creator_pii_iff check_custom_patterns_def check_custom_loop_iff
  by auto

lemma registry_clean_blank_bob: "\<not> check_patterns '' bob''"
  by code_simp

text \<open>
  Claim C2, as amended. \<open>contains_pii\<close> returns true exactly when (a) a pattern of the
  table is found in the text, or (b) a stored creator secret is a substring of the text
  in lower case (for a phone number: of the digits of the text), or (c) a custom pattern
  is found in the text. The text is put in lower case only: it is neither trimmed nor
  stripped of a leading \<open>@\<close>. The loops with their early returns compute these existence
  statements whatever the order of the sets.
\<close>

theorem contains_pii_iff:
  "contains_pii d t \<longleftrightarrow>
     (\<exists>(category, pattern) \<in> set PII_PATTERNS. search pattern t)
   \<or> (\<exists>s \<in> set (creator_names d) \<union> set (creator_handles d) \<union> set (creator_locations d)
          \<union> set (creator_employers d) \<union> set (creator_family d) \<union> set (creator_email d)
          \<union> set (creator_addresses d). sublist s (lower t))
   \<or> (\<exists>p \<in> set (creator_phone d). sublist p (filter isdigit t))
   \<or> (\<exists>m \<in> set (custom_patterns d). pattern_search m t)"
  by (rule contains_pii_unfolded)

text \<open>
  Claim C2 as stated applies the normalization of the category to the text. After
  \<open>add_creator_handle("@ bob")\<close> the stored handle is \<open> bob\<close>; the text \<open> bob\<close> is reported by
  \<open>contains_pii\<close>, although no pattern matches it and the stored handle is not a substring
  of the trimmed text \<open>bob\<close>.
\<close>

theorem claimed_verdict_differs:
  "contains_pii (add_creator_handle init_detector ''@ bob'') '' bob''
   \<and> \<not> claimed_contains_pii (add_creator_handle init_detector ''@ bob'') '' bob''"
proof -
  have norm: "lstrip_chars ''@'' (strip (lower ''@ bob'')) = '' bob''" by code_simp
  have stored: "add_creator_handle init_detector ''@ bob''
      = init_detector\<lparr>creator_handles := ['' bob'']\<rparr>"
    by (simp add: add_creator_handle_def norm init_detector_def)
  have low: "lower '' bob'' = '' bob''" by code_simp
  have trimmed: "lstrip_chars ''@'' ''bob'' = ''bob''" by code_simp
  have stripped: "strip (lower '' bob'') = ''bob''" by code_simp
  have no_pattern: "\<not> (\<exists>(category, pattern) \<in> set PII_PATTERNS. search pattern '' bob'')"
    using registry_clean_blank_bob
    unfolding check_patterns_def check_patterns_loop_iff .
  have absent: "\<not> sublist '' bob'' ''bob''"
    unfolding str_in_sublist [symmetric] by simp
  have "contains_pii (init_detector\<lparr>creator_handles := ['' bob'']\<rparr>) '' bob''"
    unfolding contains_pii_unfolded low by (simp add: init_detector_def)
  moreover have "\<not> claimed_contains_pii (init_detector\<lparr>creator_handles := ['' bob'']\<rparr>) '' bob''"
    unfolding claimed_contains_pii_def stripped trimmed
    using no_pattern absent by (simp add: init_detector_def)
  ultimately show ?thesis unfolding stored by blast
qed

text \<open>
  Claim C5. On a text in which \<open>contains_pii\<close> finds nothing, \<open>check_and_sanitize\<close>
  returns the pair of false and the text itself, for every placeholder, and the call
  leaves the detector as it was.
\<close>

theorem clean_text_unchanged:
  "\<not> contains_pii d t \<Longrightarrow>
     check_and_sanitize d t placeholder = (False, t)
   \<and> invoke rc d (CheckAndSanitize t placeholder) = (d, RPair (False, t))"
  by (simp add: check_and_sanitize_def)

theorem clean_text_unchanged_witness:
  "\<not> contains_pii init_detector ''This post is about automation''
   \<and> check_and_sanitize init_detector ''This post is about automation'' ''[REDACTED]''
       = (False, ''This post is about automation'')
   \<and> invoke re_compile_sample init_detector
         (CheckAndSanitize ''This post is about automation'' ''[REDACTED]'')
       = (init_detector, RPair (False, ''This post is about automation''))"
proof -
  have clean: "\<not> contains_pii init_detector ''This post is about automation''"
    by (simp add: contains_pii_def registry_clean_sample check_creator_pii_def
        check_custom_patterns_def init_detector_def)
  from clean_text_unchanged [OF clean, of "''[REDACTED]''" re_compile_sample] clean
  show ?thesis by blast
qed

text \<open>
  Claim C8. After \<open>clear_all\<close> every count of \<open>get_stats\<close> is zero, no creator secret
  and no custom pattern is matched any more, and the verdict of \<open>contains_pii\<close> is that
  of the pattern table alone.
\<close>

theorem clear_all_resets:
  "get_stats (clear_all d) =
     [(''creator_names_count'', 0), (''creator_handles_count'', 0),
      (''creator_locations_count'', 0), (''creator_employers_count'', 0),
      (''creator_family_count'', 0), (''creator_phone_count'', 0),
      (''creator_email_count'', 0), (''creator_address_count'', 0),
      (''custom_patterns_count'', 0)]
   \<and> check_creator_pii (clear_all d) t = False
   \<and> check_custom_patterns (clear_all d) t = False
   \<and> contains_pii (clear_all d) t = check_patterns t"
  by (simp add: get_stats_def clear_all_def contains_pii_def check_creator_pii_def
      check_custom_patterns_def)

section \<open>Phone numbers\<close>




section \<open>The mutators\<close>

lemma insert_twice: "List.insert v (List.insert v xs) = List.insert v xs"
  by (simp add: List.insert_def)

text \<open>
  Claim C6, as amended. Each of the nine mutators, called twice with the same value,
  leaves the state that one call leaves. After two such calls on a new detector the
  count of the set is 1 for the eight creator sets; for \<open>add_custom_pattern\<close> it is 1
  when the pattern compiles and 0 when it does not.
\<close>

theorem add_twice_is_add_once:
  "add_creator_name (add_creator_name d v) v = add_creator_name d v
   \<and> add_creator_handle (add_creator_handle d v) v = add_creator_handle d v
   \<and> add_creator_location (add_creator_location d v) v = add_creator_location d v
   \<and> add_creator_employer (add_creator_employer d v) v = add_creator_employer d v
   \<and> add_creator_family (add_creator_family d v) v = add_creator_family d v
   \<and> add_creator_phone (add_creator_phone d v) v = add_creator_phone d v
   \<and> add_creator_email (add_creator_email d v) v = add_creator_email d v
   \<and> add_creator_address (add_creator_address d v) v = add_creator_address d v
   \<and> add_custom_pattern rc (fst (add_custom_pattern rc d v)) v = add_custom_pattern rc d v
   \<and> map_of (get_stats (add_creator_name (add_creator_name init_detector v) v))
         ''creator_names_count'' = Some 1
   \<and> map_of (get_stats (add_creator_handle (add_creator_handle init_detector v) v))
         ''creator_handles_count'' = Some 1
   \<and> map_of (get_stats (add_creator_location (add_creator_location init_detector v) v))
         ''creator_locations_count'' = Some 1
   \<and> map_of (get_stats (add_creator_employer (add_creator_employer init_detector v) v))
         ''creator_employers_count'' = Some 1
   \<and> map_of (get_stats (add_creator_family (add_creator_family init_detector v) v))
         ''creator_family_count'' = Some 1
   \<and> map_of (get_stats (add_creator_phone (add_creator_phone init_detector v) v))
         ''creator_phone_count'' = Some 1
   \<and> map_of (get_stats (add_creator_email (add_creator_email init_detector v) v))
         ''creator_email_count'' = Some 1
   \<and> map_of (get_stats (add_creator_address (add_creator_address init_detector v) v))
         ''creator_address_count'' = Some 1
   \<and> map_of (get_stats (fst (add_custom_pattern rc
            (fst (add_custom_pattern rc init_detector v)) v))) ''custom_patterns_count''
       = Some (case rc v IGNORECASE of Inr compiled \<Rightarrow> 1 | Inl e \<Rightarrow> 0)"
  by (simp add: add_creator_name_def add_creator_handle_def add_creator_location_def
      add_creator_employer_def add_creator_family_def add_creator_phone_def
      add_creator_email_def add_creator_address_def add_custom_pattern_def insert_twice
      get_stats_def init_detector_def split: sum.split)

text \<open>
  Claim C6 as stated fails for \<open>add_custom_pattern\<close>: the pattern \<open>[\<close> does not compile,
  and after adding it twice to a new detector the count of custom patterns is 0, not 1.
\<close>

theorem malformed_pattern_count:
  "map_of (get_stats (fst (add_custom_pattern re_compile_sample
        (fst (add_custom_pattern re_compile_sample init_detector ''['')) ''[''))) ''custom_patterns_count''
     = Some 0
   \<and> map_of (get_stats (fst (add_custom_pattern re_compile_sample
        (fst (add_custom_pattern re_compile_sample init_detector ''['')) ''[''))) ''custom_patterns_count''
     \<noteq> Some 1"
  by (simp add: add_custom_pattern_def re_compile_sample_def get_stats_def init_detector_def)

text \<open>What \<open>add_custom_pattern\<close> does in each of the three cases of \<open>re.compile\<close>: a
  compiled pattern is inserted, \<open>re.error\<close> is swallowed and the detector is left as it
  was, any other exception is raised with the detector left as it was.\<close>

lemma add_custom_pattern_cases:
  "(rc p IGNORECASE = Inr c \<longrightarrow>
      add_custom_pattern rc d p = (d\<lparr>custom_patterns := List.insert c (custom_patterns d)\<rparr>, None))
   \<and> (rc p IGNORECASE = Inl ReError \<longrightarrow> add_custom_pattern rc d p = (d, None))
   \<and> (rc p IGNORECASE = Inl e \<and> e \<noteq> ReError \<longrightarrow> add_custom_pattern rc d p = (d, Some e))"
  by (simp add: add_custom_pattern_def)

text \<open>
  Claim C7. The pattern \<open>a{4294967296}\<close> is not a valid pattern: \<open>re.compile\<close> raises
  \<open>OverflowError\<close> on it. \<open>add_custom_pattern\<close> catches \<open>re.error\<close> only, so the call raises
  \<open>OverflowError\<close> instead of returning silently; the detector is left as it was. The
  pattern \<open>[\<close>, on which \<open>re.compile\<close> raises \<open>re.error\<close>, is ignored without an exception.
\<close>

theorem malformed_pattern_raises:
  "add_custom_pattern re_compile_sample init_detector ''a{4294967296}''
     = (init_detector, Some OverflowError)
   \<and> invoke re_compile_sample init_detector (AddCustomPattern ''a{4294967296}'')
     = (init_detector, RRaise OverflowError)
   \<and> add_custom_pattern re_compile_sample init_detector ''['' = (init_detector, None)"
  by (simp add: add_custom_pattern_def re_compile_sample_def)

section \<open>The empty secret\<close>

lemma normalize_empty: "strip (lower []) = []"
  by (simp add: strip_def lower_def rstrip_def lstrip_def)

lemma cwc_names:
  "creator_names (create_detector_with_creator n h l e) = [strip (lower n)]"
  by (simp add: create_detector_with_creator_def Let_def add_creator_name_def
      add_creator_handle_def add_creator_location_def add_creator_employer_def
      init_detector_def split: option.split)

lemma cwc_handles_empty:
  "creator_handles (create_detector_with_creator n (Some []) l e) = []"
  by (simp add: create_detector_with_creator_def Let_def add_creator_name_def
      add_creator_handle_def add_creator_location_def add_creator_employer_def
      init_detector_def split: option.split)

lemma cwc_locations_empty:
  "creator_locations (create_detector_with_creator n h (Some []) e) = []"
  by (simp add: create_detector_with_creator_def Let_def add_creator_name_def
      add_creator_handle_def add_creator_location_def add_creator_employer_def
      init_detector_def split: option.split)

lemma cwc_employers_empty:
  "creator_employers (create_detector_with_creator n h l (Some [])) = []"
  by (simp add: create_detector_with_creator_def Let_def add_creator_name_def
      add_creator_handle_def add_creator_location_def add_creator_employer_def
      init_detector_def split: option.split)

text \<open>
  Claim C3, as amended. A detector that holds the empty string in any of its eight
  creator sets reports every text, the empty one too. The detector the wrapper builds
  holds the empty string as a name whenever the configuration gives no name; an empty
  handle, location or employer is not registered (the guards \<open>if handle:\<close>,
  \<open>if location:\<close>, \<open>if employer:\<close> skip it), so those sets stay empty.
\<close>

theorem empty_secret_matches_all:
  "(lacks config ''name'' \<longrightarrow> creator_names (cli_create_detector config) = [''''])
   \<and> (lacks config ''handle'' \<longrightarrow> creator_handles (cli_create_detector config) = [])
   \<and> (lacks config ''location'' \<longrightarrow> creator_locations (cli_create_detector config) = [])
   \<and> (lacks config ''employer'' \<longrightarrow> creator_employers (cli_create_detector config) = [])
   \<and> ('''' \<in> set (creator_names d) \<union> set (creator_handles d) \<union> set (creator_locations d)
          \<union> set (creator_employers d) \<union> set (creator_family d) \<union> set (creator_phone d)
          \<union> set (creator_email d) \<union> set (creator_addresses d)
        \<longrightarrow> contains_pii d t)
   \<and> (lacks config ''name'' \<longrightarrow> contains_pii (cli_create_detector config) t)"
proof -
  have names: "creator_names (cli_create_detector config) = ['''']" if "lacks config ''name''"
    using that
    by (auto simp: lacks_def cli_create_detector_def cwc_names dict_get_def normalize_empty
        split: option.splits)
  have handles: "creator_handles (cli_create_detector config) = []" if "lacks config ''handle''"
    using that
    by (auto simp: lacks_def cli_create_detector_def cwc_handles_empty dict_get_def
        split: option.splits)
  have locations: "creator_locations (cli_create_detector config) = []"
    if "lacks config ''location''"
    using that
    by (auto simp: lacks_def cli_create_detector_def cwc_locations_empty dict_get_def
        split: option.splits)
  have employers: "creator_employers (cli_create_detector config) = []"
    if "lacks config ''employer''"
    using that
    by (auto simp: lacks_def cli_create_detector_def cwc_employers_empty dict_get_def
        split: option.splits)
  have empty: "contains_pii d' t"
    if "'''' \<in> set (creator_names d') \<union> set (creator_handles d') \<union> set (creator_locations d')
          \<union> set (creator_employers d') \<union> set (creator_family d') \<union> set (creator_phone d')
          \<union> set (creator_email d') \<union> set (creator_addresses d')" for d'
  proof -
    have "check_creator_pii d' t"
      unfolding check_creator_pii_iff using that by auto
    then show ?thesis by (simp add: contains_pii_def)
  qed
  have "contains_pii (cli_create_detector config) t" if "lacks config ''name''"
    using names [OF that] by (intro empty) simp
  with names handles locations employers empty show ?thesis by blast
qed

theorem empty_secret_matches_all_witness:
  "lacks None ''name'' \<and> lacks None ''handle'' \<and> lacks None ''location''
   \<and> lacks None ''employer''
   \<and> creator_names (cli_create_detector None) = ['''']
   \<and> creator_handles (cli_create_detector None) = []
   \<and> creator_locations (cli_create_detector None) = []
   \<and> creator_employers (cli_create_detector None) = []
   \<and> contains_pii (cli_create_detector None) ''''
   \<and> contains_pii (cli_create_detector None) ''hello''"
  using empty_secret_matches_all [of None "cli_create_detector None" "''''"]
    empty_secret_matches_all [of None "cli_create_detector None" "''hello''"]
  by (simp add: lacks_def)

text \<open>
  Claim C3 as stated says that the wrapper registers the empty string for handle,
  location and employer as well. It does not: without a configuration these three sets
  do not hold the empty string.
\<close>

theorem empty_handle_not_registered:
  "'''' \<notin> set (creator_handles (cli_create_detector None))
   \<and> '''' \<notin> set (creator_locations (cli_create_detector None))
   \<and> '''' \<notin> set (creator_employers (cli_create_detector None))"
  by (simp add: cli_create_detector_def cwc_handles_empty cwc_locations_empty cwc_employers_empty)

section \<open>Stored values\<close>

text \<open>Whatever calls are made on a new detector, the values of seven sets are
  normalized, the phone numbers are digits, and a handle is in lower case, without white
  space at its end and without a leading \<open>@\<close>.\<close>

lemma ord_lower_char: "ord (lower_char c) = (if isupper c then ord c + 32 else ord c)"
  by (auto simp: lower_char_def ord_def isupper_def)

lemma isupper_lower_char: "\<not> isupper (lower_char c)"
  unfolding isupper_def ord_lower_char by (auto simp: isupper_def)

lemma lower_char_idem: "lower_char (lower_char c) = lower_char c"
  using isupper_lower_char [of c] by (simp add: lower_char_def)

lemma isspace_lower_char: "isspace (lower_char c) = isspace c"
  unfolding isspace_def ord_lower_char by (auto simp: isupper_def)

lemma lower_idem: "lower (lower s) = lower s"
  by (simp add: lower_def lower_char_idem)

lemma dropWhile_isspace_lower:
  "dropWhile isspace (map lower_char s) = map lower_char (dropWhile isspace s)"
  by (induction s) (simp_all add: isspace_lower_char)

lemma lower_lstrip: "lower (lstrip s) = lstrip (lower s)"
  by (simp add: lower_def lstrip_def dropWhile_isspace_lower)

lemma lower_rstrip: "lower (rstrip s) = rstrip (lower s)"
  by (simp add: lower_def rstrip_def dropWhile_isspace_lower rev_map)

lemma lower_strip: "lower (strip s) = strip (lower s)"
  by (simp add: strip_def lower_lstrip lower_rstrip)

lemma lstrip_idem: "lstrip (lstrip s) = lstrip s"
  unfolding lstrip_def by (induction s) simp_all

lemma rstrip_idem: "rstrip (rstrip s) = rstrip s"
  using lstrip_idem [of "rev s"] by (simp add: rstrip_def lstrip_def)

lemma lstrip_rstrip_lstrip: "lstrip (rstrip (lstrip s)) = rstrip (lstrip s)"
proof (cases "lstrip s")
  case Nil
  then have "rstrip (lstrip s) = []" by (simp add: rstrip_def)
  moreover have "lstrip [] = []" by (simp add: lstrip_def)
  ultimately show ?thesis by simp
next
  case (Cons c cs)
  then have c: "\<not> isspace c"
    unfolding lstrip_def by (metis hd_dropWhile list.sel(1) list.distinct(1))
  have "rstrip (c # cs) = c # rstrip cs \<or> rstrip (c # cs) = [c]"
    unfolding rstrip_def using c
    by (cases "dropWhile isspace (rev cs)") (auto simp: dropWhile_append)
  then show ?thesis using Cons c by (auto simp: lstrip_def)
qed

lemma strip_idem: "strip (strip s) = strip s"
  by (simp add: strip_def lstrip_rstrip_lstrip rstrip_idem)

lemma normalized_strip_lower: "normalized (strip (lower x))"
  by (simp add: normalized_def lower_strip lower_idem strip_idem)


lemma rstrip_fixed: "rstrip t = t \<longleftrightarrow> (t = [] \<or> \<not> isspace (last t))"
proof (cases t rule: rev_cases)
  case Nil
  then show ?thesis by (simp add: rstrip_def)
next
  case (snoc ys y)
  show ?thesis
  proof (cases "isspace y")
    case True
    have "length (rstrip t) \<le> length ys"
      using length_dropWhile_le [of isspace "rev ys"] by (simp add: rstrip_def snoc True)
    then have "rstrip t \<noteq> t" using snoc by auto
    with True snoc show ?thesis by simp
  next
    case False
    with snoc show ?thesis by (simp add: rstrip_def)
  qed
qed

lemma rstrip_strip: "rstrip (strip s) = strip s"
  by (simp add: strip_def rstrip_idem)

lemma last_dropWhile: "dropWhile P t \<noteq> [] \<Longrightarrow> last (dropWhile P t) = last t"
  by (induction t) (auto split: if_splits)

lemma rstrip_lstrip_chars:
  assumes "rstrip t = t"
  shows "rstrip (lstrip_chars cs t) = lstrip_chars cs t"
proof (cases "lstrip_chars cs t = []")
  case True
  then show ?thesis by (simp add: rstrip_def)
next
  case False
  then have "last (lstrip_chars cs t) = last t" and "t \<noteq> []"
    unfolding lstrip_chars_def by (auto simp: last_dropWhile)
  with assms False show ?thesis unfolding rstrip_fixed by simp
qed

lemma lower_fixed_dropWhile: "lower t = t \<Longrightarrow> lower (dropWhile P t) = dropWhile P t"
proof -
  assume "lower t = t"
  then have "\<And>c. c \<in> set t \<Longrightarrow> lower_char c = c"
    unfolding lower_def by (simp add: map_idI [symmetric] map_eq_conv [where g = id, simplified])
  then have "\<And>c. c \<in> set (dropWhile P t) \<Longrightarrow> lower_char c = c"
    using set_dropWhileD by fast
  then show ?thesis unfolding lower_def by (simp add: map_idI)
qed

lemma handle_normalized_stored: "handle_normalized (lstrip_chars ''@'' (strip (lower x)))"
proof -
  have low: "lower (strip (lower x)) = strip (lower x)"
    by (simp add: lower_strip lower_idem)
  have a: "lower (lstrip_chars ''@'' (strip (lower x))) = lstrip_chars ''@'' (strip (lower x))"
    unfolding lstrip_chars_def by (rule lower_fixed_dropWhile [OF low])
  have b: "rstrip (lstrip_chars ''@'' (strip (lower x))) = lstrip_chars ''@'' (strip (lower x))"
    by (rule rstrip_lstrip_chars [OF rstrip_strip])
  have c: "lstrip_chars ''@'' (lstrip_chars ''@'' (strip (lower x)))
      = lstrip_chars ''@'' (strip (lower x))"
    by (simp add: lstrip_chars_def)
  show ?thesis unfolding handle_normalized_def using a b c by blast
qed

lemma list_all_insert: "list_all P (List.insert x xs) = (P x \<and> list_all P xs)"
  by (auto simp: list_all_iff)

lemma digits_only_all: "list_all isdigit (digits_only x)"
  by (simp add: digits_only_filter list_all_iff)

lemma stored_normalized_init: "stored_normalized init_detector"
  by (simp add: stored_normalized_def init_detector_def)

lemma stored_normalized_invoke:
  "stored_normalized d \<Longrightarrow> stored_normalized (fst (invoke rc d c))"
  by (cases c)
    (auto simp: stored_normalized_def add_creator_name_def add_creator_handle_def
      add_creator_location_def add_creator_employer_def add_creator_family_def
      add_creator_phone_def add_creator_email_def add_creator_address_def
      add_custom_pattern_def clear_all_def list_all_insert normalized_strip_lower
      handle_normalized_stored digits_only_all split: sum.splits prod.splits option.splits)

lemma stored_normalized_run_from:
  "stored_normalized d \<Longrightarrow> stored_normalized (run rc d cs)"
  by (induction cs arbitrary: d) (simp_all add: stored_normalized_invoke)

lemma stored_normalized_run: "stored_normalized (run rc init_detector cs)"
  by (simp add: stored_normalized_run_from stored_normalized_init)

text \<open>Where every stored value is trimmed and no stored handle starts with \<open>@\<close>, the
  verdict is the same whether the text is only put in lower case or normalized by the
  rule of each category.\<close>

lemma sublist_dropWhile_iff:
  assumes "s = [] \<or> \<not> P (hd s)"
  shows "sublist s (dropWhile P t) \<longleftrightarrow> sublist s t"
proof
  assume "sublist s (dropWhile P t)"
  moreover have "sublist (dropWhile P t) t" by simp
  ultimately show "sublist s t" by (rule sublist_order.order_trans)
next
  assume "sublist s t"
  then obtain ps ss where t: "t = ps @ s @ ss" by (auto simp: sublist_def)
  show "sublist s (dropWhile P t)"
  proof (cases "s = []")
    case True
    then show ?thesis by simp
  next
    case False
    with assms obtain x xs where s: "s = x # xs" and x: "\<not> P x" by (cases s) auto
    show ?thesis
    proof (cases "\<forall>y\<in>set ps. P y")
      case True
      then have "dropWhile P t = s @ ss" using s x by (simp add: t dropWhile_append)
      then show ?thesis by simp
    next
      case False
      then have "dropWhile P t = dropWhile P ps @ s @ ss" by (auto simp: t dropWhile_append)
      then show ?thesis by simp
    qed
  qed
qed

lemma sublist_lstrip:
  "s = [] \<or> \<not> isspace (hd s) \<Longrightarrow> sublist s (lstrip t) \<longleftrightarrow> sublist s t"
  unfolding lstrip_def by (rule sublist_dropWhile_iff)

lemma sublist_rstrip:
  assumes "s = [] \<or> \<not> isspace (last s)"
  shows "sublist s (rstrip t) \<longleftrightarrow> sublist s t"
proof -
  have "rev s = [] \<or> \<not> isspace (hd (rev s))" using assms by (auto simp: hd_rev)
  with sublist_dropWhile_iff [of "rev s" isspace "rev t"] show ?thesis
    by (simp add: rstrip_def sublist_rev_right)
qed

lemma strip_fixed_ends:
  assumes "strip s = s"
  shows "s = [] \<or> (\<not> isspace (hd s) \<and> \<not> isspace (last s))"
proof -
  have "rstrip s = s" using rstrip_strip [of s] assms by simp
  moreover have "lstrip s = s" using lstrip_rstrip_lstrip [of s] assms by (simp add: strip_def)
  ultimately show ?thesis
    unfolding rstrip_fixed lstrip_def dropWhile_eq_self_iff by blast
qed

lemma sublist_strip: "strip s = s \<Longrightarrow> sublist s (strip t) \<longleftrightarrow> sublist s t"
  using strip_fixed_ends [of s] by (auto simp: strip_def sublist_rstrip sublist_lstrip)

lemma sublist_handle:
  assumes "strip h = h" and "lstrip_chars ''@'' h = h"
  shows "sublist h (lstrip_chars ''@'' (strip t)) \<longleftrightarrow> sublist h t"
proof -
  have "h = [] \<or> \<not> hd h \<in> set ''@''"
    using assms(2) unfolding lstrip_chars_def dropWhile_eq_self_iff .
  with sublist_dropWhile_iff [of h "\<lambda>c. c \<in> set ''@''" "strip t"] sublist_strip [OF assms(1), of t]
  show ?thesis unfolding lstrip_chars_def by blast
qed

lemma claimed_agrees_when_trimmed:
  assumes "\<forall>s \<in> set (creator_names d) \<union> set (creator_handles d) \<union> set (creator_locations d)
      \<union> set (creator_employers d) \<union> set (creator_family d) \<union> set (creator_email d)
      \<union> set (creator_addresses d). strip s = s"
    and "\<forall>h \<in> set (creator_handles d). lstrip_chars ''@'' h = h"
  shows "claimed_contains_pii d t = contains_pii d t"
proof -
  have text_side: "sublist s (strip (lower t)) = sublist s (lower t)"
    if "s \<in> set (creator_names d) \<union> set (creator_locations d) \<union> set (creator_employers d)
      \<union> set (creator_family d) \<union> set (creator_email d) \<union> set (creator_addresses d)" for s
    using that assms(1) by (intro sublist_strip) auto
  have handle_side: "sublist h (lstrip_chars ''@'' (strip (lower t))) = sublist h (lower t)"
    if "h \<in> set (creator_handles d)" for h
    using that assms by (intro sublist_handle) auto
  show ?thesis
    unfolding claimed_contains_pii_def contains_pii_unfolded digits_only_filter
    using text_side handle_side by (simp add: bex_Un) blast
qed

section \<open>Refusals of the wrapper\<close>

text \<open>With the protection on, content in which the detector finds PII is refused
  without a call of the client. The refusal of a post has four keys, the refusal of a
  comment three.\<close>

lemma check_content_blocked:
  assumes "pii_protection_enabled c" and "content \<noteq> []"
    and "contains_pii (pii_detector c) content"
  shows "check_content c content field =
     ((False, ''PII detected in '' @ field @ '' - post blocked'',
       Some (snd (check_and_sanitize (pii_detector c) content default_placeholder))),
      c\<lparr>posts_blocked := posts_blocked c + 1\<rparr>)"
  using assms by (simp add: check_content_def check_and_sanitize_def Let_def)

lemma check_content_passed:
  assumes "\<not> pii_protection_enabled c \<or> content = [] \<or> \<not> contains_pii (pii_detector c) content"
  shows "fst (fst (check_content c content field))
    \<and> pii_detector (snd (check_content c content field)) = pii_detector c
    \<and> pii_protection_enabled (snd (check_content c content field)) = pii_protection_enabled c"
  using assms by (auto simp: check_content_def check_and_sanitize_def Let_def)

lemma post_comment_blocked:
  assumes "pii_protection_enabled c" and "content \<noteq> []"
    and "contains_pii (pii_detector c) content"
  shows "fst (post_comment c post_id content parent) =
     Local [(''success'', PBool False), (''error'', PStr ''PII Protection Blocked''),
            (''details'', PStr (''PII detected in comment - post blocked''))]"
  using check_content_blocked [OF assms, of "''comment''"]
  by (simp add: post_comment_def)

lemma safe_post_create_blocked_title:
  assumes "pii_protection_enabled c" and "title \<noteq> []"
    and "contains_pii (pii_detector c) title"
  shows "fst (safe_post_create c submolt title content url) =
     Local [(''success'', PBool False), (''error'', PStr ''PII Protection Blocked''),
            (''details'', PStr ''PII detected in title - post blocked''),
            (''suggestion'', PStr ''Remove personal information from title and try again'')]"
  using check_content_blocked [OF assms, of "''title''"]
  by (simp add: safe_post_create_def)

lemma safe_post_create_blocked_content:
  assumes "pii_protection_enabled c" and "content \<noteq> []"
    and "contains_pii (pii_detector c) content"
    and "title = [] \<or> \<not> contains_pii (pii_detector c) title"
  shows "fst (safe_post_create c submolt title content url) =
     Local [(''success'', PBool False), (''error'', PStr ''PII Protection Blocked''),
            (''details'', PStr ''PII detected in content - post blocked''),
            (''suggestion'', PStr ''Remove personal information from content and try again'')]"
proof -
  obtain r c1 where t: "check_content c title ''title'' = (r, c1)"
    by (cases "check_content c title ''title''")
  have "\<not> pii_protection_enabled c \<or> title = [] \<or> \<not> contains_pii (pii_detector c) title"
    using assms(4) by blast
  from check_content_passed [OF this, of "''title''"] t
  have safe: "fst r" and det: "pii_detector c1 = pii_detector c"
    and en: "pii_protection_enabled c1" using assms(1) by simp_all
  have "contains_pii (pii_detector c1) content" using det assms(3) by simp
  from check_content_blocked [OF en assms(2) this, of "''content''"] t safe
  show ?thesis by (cases r) (simp add: safe_post_create_def)
qed

section \<open>Runs of the code where it departs from the specification\<close>

text \<open>
  Claim C1. The name \<open>Jane Doe\<close> is registered and stored as \<open>jane doe\<close>. The text
  \<open>Hello from Jane Doe\<close> is reported, and the sanitized text returned with the default
  placeholder is the text itself: \<open>str.replace\<close> looks for the stored lower-case value
  in the text as written, so the name in its own casing stays.
\<close>

theorem name_survives_sanitize:
  "creator_names (add_creator_name init_detector ''Jane Doe'') = [''jane doe'']
   \<and> check_and_sanitize (add_creator_name init_detector ''Jane Doe'') ''Hello from Jane Doe''
       ''[REDACTED]'' = (True, ''Hello from Jane Doe'')"
  by code_simp

text \<open>
  Claim C4. A comment with an e-mail address is refused without a call of the client,
  and the refusal has the keys \<open>success\<close>, \<open>error\<close> and \<open>details\<close> only: the key
  \<open>suggestion\<close>, which the refusal of \<open>safe_post_create\<close> carries for the same content,
  is missing.
\<close>

theorem comment_refusal_lacks_suggestion:
  "fst (post_comment (cli_init (Some [(''name'', ''Jane Doe'')])) ''post-1''
          ''Contact me at seth@example.com'' None)
     = Local [(''success'', PBool False), (''error'', PStr ''PII Protection Blocked''),
              (''details'', PStr ''PII detected in comment - post blocked'')]
   \<and> fst (safe_post_create (cli_init (Some [(''name'', ''Jane Doe'')])) ''general'' ''Hello''
          ''Contact me at seth@example.com'' None)
     = Local [(''success'', PBool False), (''error'', PStr ''PII Protection Blocked''),
              (''details'', PStr ''PII detected in content - post blocked''),
              (''suggestion'', PStr ''Remove personal information from content and try again'')]"
  by code_simp

text \<open>
  Claim C9. \<open>add_creator_handle("@ bob")\<close> stores \<open> bob\<close> with its leading blank: the
  white space is stripped before the \<open>@\<close>, not after it. The stored value is not its
  own trimmed form, and the handle is then missed in the text \<open>bob was here\<close>.
\<close>

theorem handle_keeps_space:
  "creator_handles (add_creator_handle init_detector ''@ bob'') = ['' bob'']
   \<and> strip (lower '' bob'') \<noteq> '' bob''
   \<and> \<not> check_creator_pii (add_creator_handle init_detector ''@ bob'') ''bob was here''"
  by code_simp

end
